theory Spec2Isabelle
  imports Main "HOL-Library.Sublist" "HOL-Library.AList"
begin

section \<open>Data model of the simplefs storage engine\<close>

text \<open>
  Byte slices and strings are both \<open>string\<close> (Go converts between them freely:
  \<open>string(item.Value())\<close>, \<open>[]byte(joinedFP)\<close>). A \<open>time.Duration\<close> and a point in
  time are integer numbers of nanoseconds. The byte counters are \<open>int64\<close> in the
  source; they are modelled as unbounded integers, file sizes being far below \<open>2^63\<close>.
\<close>

type_synonym bytes = string
type_synonym Duration = int
type_synonym Time = int
type_synonym Header = "(string \<times> string list) list"

datatype error = Error string | Wrapped string error

text \<open>One constructor per logger method; the first argument labels the call site.\<close>

datatype log_event = Debugf string string | Warnf string string | Errorf string string

record Item =
  Key :: string
  Value :: bytes
  ttl :: Duration
  expiresAt :: Time

datatype EvictionReason =
  EvictionReasonDeleted | EvictionReasonCapacityReached | EvictionReasonExpired

text \<open>
  What the engine calls but does not define: the reserved prefix and the merge function
  of the shared core package, the two codecs, the path functions and the outcome of
  writing a file. \<open>lz4_Writer\<close> and \<open>zstd_Writer\<close> give the bytes that are in the
  buffer when the file is written (the writers are closed by a deferred call, after
  that); \<open>lz4_Reader\<close> and \<open>zstd_Reader\<close> give what \<open>io.ReadAll\<close> returns.
  \<open>filepath_Join_PathEscape p k\<close> is \<open>filepath.Join(p, url.PathEscape(k))\<close>.
\<close>

record env =
  MappingKeyPrefix :: string
  MappingUpdater ::
    "string \<Rightarrow> bytes \<Rightarrow> Time \<Rightarrow> Time \<Rightarrow> Time \<Rightarrow> Header \<Rightarrow> string \<Rightarrow> string \<Rightarrow> error + bytes"
  lz4_Writer :: "bytes \<Rightarrow> error + bytes"
  zstd_Writer :: "bytes \<Rightarrow> error + bytes"
  lz4_Reader :: "bytes \<Rightarrow> error + bytes"
  zstd_Reader :: "bytes \<Rightarrow> error + bytes"
  filepath_Join_PathEscape :: "string \<Rightarrow> string \<Rightarrow> string"
  WriteFile_fails :: "string \<Rightarrow> bool"

text \<open>
  The provider, with the two parts of the world it acts on: the regular files of the
  filesystem (an association list from path to content) and the clock. \<open>cache\<close> is the
  index, most recently set entry first; \<open>size_capacity\<close> is the field \<open>size\<close>, the
  capacity of the index (0: no bound).
\<close>

record Simplefs =
  cache :: "Item list"
  stale :: Duration
  size_capacity :: nat
  path :: string
  logger :: "log_event list"
  actualSize :: int
  directorySize :: int
  compression :: string
  files :: "(string \<times> bytes) list"
  clock :: Time

section \<open>Filesystem and strings\<close>

definition strings_Contains :: "string \<Rightarrow> string \<Rightarrow> bool" where
  "strings_Contains s substr = sublist substr s"

definition os_Stat :: "Simplefs \<Rightarrow> string \<Rightarrow> int option" where
  "os_Stat s p = map_option (\<lambda>b. int (length b)) (map_of (files s) p)"

definition os_ReadFile :: "Simplefs \<Rightarrow> string \<Rightarrow> bytes option" where
  "os_ReadFile s p = map_of (files s) p"

definition os_WriteFile :: "env \<Rightarrow> Simplefs \<Rightarrow> string \<Rightarrow> bytes \<Rightarrow> Simplefs option" where
  "os_WriteFile E s p b =
     (if WriteFile_fails E p then None
      else Some (s\<lparr>files := AList.update p b (files s)\<rparr>))"

definition onEvict :: "string \<Rightarrow> Simplefs \<Rightarrow> error option \<times> Simplefs" where
  "onEvict p s =
     (case map_of (files s) p of
        None \<Rightarrow> (Some (Error ''remove: no such file''), s)
      | Some b \<Rightarrow> (None, s\<lparr>files := AList.delete p (files s)\<rparr>))"

section \<open>The notification hooks attached by Init\<close>

definition OnInsertion :: "env \<Rightarrow> Item \<Rightarrow> Simplefs \<Rightarrow> Simplefs" where
  "OnInsertion E item s =
     (if strings_Contains (Key item) (MappingKeyPrefix E) then s
      else case os_Stat s (Value item) of
             None \<Rightarrow> s\<lparr>logger := logger s @ [Errorf ''cannot get file size'' (Key item)]\<rparr>
           | Some info_Size \<Rightarrow>
               s\<lparr>actualSize := actualSize s + info_Size,
                 logger := logger s @ [Debugf ''actual size increased'' (Key item)]\<rparr>)"

definition OnEviction :: "env \<Rightarrow> EvictionReason \<Rightarrow> Item \<Rightarrow> Simplefs \<Rightarrow> Simplefs" where
  "OnEviction E reason item s =
     (if strings_Contains (Value item) (MappingKeyPrefix E) then s
      else case os_Stat s (Value item) of
             None \<Rightarrow> s\<lparr>logger := logger s @ [Errorf ''cannot get file size'' (Key item)]\<rparr>
           | Some info_Size \<Rightarrow>
               (let s1 = s\<lparr>actualSize := actualSize s - info_Size,
                           logger := logger s @ [Debugf ''actual size decreased'' (Key item)]\<rparr>
                in case onEvict (Value item) s1 of
                     (None, s2) \<Rightarrow> s2
                   | (Some err, s2) \<Rightarrow>
                       s2\<lparr>logger := logger s2 @ [Errorf ''cannot remove file'' (Key item)]\<rparr>))"

section \<open>The TTL and capacity index\<close>

text \<open>
  The index is the package ttlcache, which is not part of the source tree; its
  operations are modelled from section 4.4 of the specification: \<open>get\<close> returns the
  stored value if present and not expired; \<open>set\<close> inserts or replaces, a ttl \<open>\<le> 0\<close>
  meaning already expired; \<open>delete\<close> removes at once and fires the eviction
  notification; iteration backwards starts at the oldest entry and stops when the
  visitor returns false; at capacity the oldest entry is evicted to make room; the
  insertion hook fires after every set, the eviction hook at every removal, both
  synchronously. The hooks are the two functions above, as in the serving state,
  after \<open>Init\<close>.
\<close>

text \<open>Modelled from the spec: the expiry test of the index, absent from the source tree;
  an entry set with a ttl \<open>\<le> 0\<close> is expired from the moment it is written.\<close>

definition isExpired :: "Time \<Rightarrow> Item \<Rightarrow> bool" where
  "isExpired now item = (expiresAt item \<le> now)"

text \<open>Modelled from the spec: the removal of an entry by the index, absent from the source
  tree; it fires the eviction hook, whatever the reason.\<close>

definition cache_evict :: "env \<Rightarrow> EvictionReason \<Rightarrow> Item \<Rightarrow> Simplefs \<Rightarrow> Simplefs" where
  "cache_evict E reason item s =
     OnEviction E reason item (s\<lparr>cache := filter (\<lambda>i. Key i \<noteq> Key item) (cache s)\<rparr>)"

text \<open>Modelled from the spec: \<open>cache.Get\<close> of the index, absent from the source tree.\<close>

definition cache_Get :: "Simplefs \<Rightarrow> string \<Rightarrow> Item option" where
  "cache_Get s k =
     (case find (\<lambda>i. Key i = k) (cache s) of
        None \<Rightarrow> None
      | Some item \<Rightarrow> if isExpired (clock s) item then None else Some item)"

text \<open>Modelled from the spec: \<open>cache.Delete\<close> of the index, absent from the source tree.\<close>

definition cache_Delete :: "env \<Rightarrow> Simplefs \<Rightarrow> string \<Rightarrow> Simplefs" where
  "cache_Delete E s k =
     (case find (\<lambda>i. Key i = k) (cache s) of
        None \<Rightarrow> s
      | Some item \<Rightarrow> cache_evict E EvictionReasonDeleted item s)"

text \<open>Modelled from the spec: the background sweep of the index, absent from the source
  tree, in one pass over the expired entries.\<close>

definition cache_DeleteExpired :: "env \<Rightarrow> Simplefs \<Rightarrow> Simplefs" where
  "cache_DeleteExpired E s =
     fold (cache_evict E EvictionReasonExpired) (filter (isExpired (clock s)) (cache s)) s"

text \<open>Modelled from the spec: \<open>cache.Set\<close> of the index, absent from the source tree. The
  entry written becomes the most recent one.\<close>

definition cache_Set :: "env \<Rightarrow> Simplefs \<Rightarrow> string \<Rightarrow> bytes \<Rightarrow> Duration \<Rightarrow> Simplefs" where
  "cache_Set E s k v d =
     (let item = \<lparr>Key = k, Value = v, ttl = d, expiresAt = clock s + d\<rparr> in
      case find (\<lambda>i. Key i = k) (cache s) of
        Some old \<Rightarrow>
          OnInsertion E item (s\<lparr>cache := item # filter (\<lambda>i. Key i \<noteq> k) (cache s)\<rparr>)
      | None \<Rightarrow>
          (let s1 = (if size_capacity s \<noteq> 0 \<and> size_capacity s \<le> length (cache s)
                     then (case rev (cache s) of
                             [] \<Rightarrow> s
                           | oldest # others \<Rightarrow>
                               cache_evict E EvictionReasonCapacityReached oldest s)
                     else s)
           in OnInsertion E item (s1\<lparr>cache := item # cache s1\<rparr>)))"

text \<open>Modelled from the spec: \<open>cache.RangeBackwards\<close> of the index, absent from the source
  tree; the visitor returns the new state and whether to go on.\<close>

fun range_items ::
  "(Item \<Rightarrow> Simplefs \<Rightarrow> Simplefs \<times> bool) \<Rightarrow> Item list \<Rightarrow> Simplefs \<Rightarrow> Simplefs" where
  "range_items fn [] s = s"
| "range_items fn (item # rest) s =
     (case fn item s of (s', continue) \<Rightarrow> if continue then range_items fn rest s' else s')"

definition cache_RangeBackwards ::
  "(Item \<Rightarrow> Simplefs \<Rightarrow> Simplefs \<times> bool) \<Rightarrow> Simplefs \<Rightarrow> Simplefs" where
  "cache_RangeBackwards fn s = range_items fn (rev (cache s)) s"

section \<open>The engine\<close>

text \<open>
  \<open>recoverEnoughSpaceIfNeeded\<close> calls itself with no bound on the depth; a call that
  never returns has the value \<open>None\<close>.
\<close>

partial_function (option) recoverEnoughSpaceIfNeeded ::
  "env \<Rightarrow> int \<Rightarrow> Simplefs \<Rightarrow> Simplefs option" where
  "recoverEnoughSpaceIfNeeded E sz s =
     (if directorySize s > -1 \<and> actualSize s + sz > directorySize s
      then recoverEnoughSpaceIfNeeded E sz
             (cache_RangeBackwards (\<lambda>item s'. (cache_Delete E s' (Value item), False)) s)
      else Some s)"

declare recoverEnoughSpaceIfNeeded.simps [code]

text \<open>The compression switch of \<open>SetMultiLevel\<close>.\<close>

definition compress :: "env \<Rightarrow> Simplefs \<Rightarrow> string \<Rightarrow> bytes \<Rightarrow> (error + bytes) \<times> Simplefs" where
  "compress E s variedKey val =
     (if compression s = ''zstd'' then
        (case zstd_Writer E val of
           Inl err \<Rightarrow> (Inl err, s\<lparr>logger := logger s @ [Errorf ''zstd compression failed'' variedKey]\<rparr>)
         | Inr compressed \<Rightarrow> (Inr compressed, s))
      else if compression s = ''lz4'' \<or> compression s = '''' then
        (case lz4_Writer E val of
           Inl err \<Rightarrow> (Inl err, s\<lparr>logger := logger s @ [Errorf ''lz4 compression failed'' variedKey]\<rparr>)
         | Inr compressed \<Rightarrow> (Inr compressed, s))
      else (Inr val, s\<lparr>logger := logger s @ [Warnf ''unknown compression method, stored uncompressed'' (compression s)]\<rparr>))"

text \<open>
  \<open>time.Now().Nanosecond()\<close> is the offset within the second, and
  \<open>time.ParseDuration\<close> on the string \<open>-<n>s\<close> is written out with its overflow checks.
\<close>

definition time_Nanosecond :: "Time \<Rightarrow> int" where
  "time_Nanosecond t = t mod 1000000000"

definition ParseDuration_minus_seconds :: "int \<Rightarrow> error + Duration" where
  "ParseDuration_minus_seconds n =
     (if n < 0 then Inl (Error ''time: invalid duration'')
      else if n > 2 ^ 63 div 1000000000 then Inl (Error ''time: invalid duration'')
      else if n * 1000000000 > 2 ^ 63 then Inl (Error ''time: invalid duration'')
      else Inr (- (n * 1000000000)))"

definition negativeNow :: "Time \<Rightarrow> error + Duration" where
  "negativeNow t = ParseDuration_minus_seconds (time_Nanosecond t * 2)"

text \<open>The part of \<open>SetMultiLevel\<close> after the index entry of the variant is written.\<close>

definition updateMapping ::
  "env \<Rightarrow> Simplefs \<Rightarrow> Time \<Rightarrow> string \<Rightarrow> string \<Rightarrow> Header \<Rightarrow> string \<Rightarrow> Duration \<Rightarrow> string
     \<Rightarrow> error option \<times> Simplefs" where
  "updateMapping E s now baseKey variedKey variedHeaders etag duration realKey =
     (let mappingKey = MappingKeyPrefix E @ baseKey;
          (item_Value, s1) =
             (case cache_Get s mappingKey of
                None \<Rightarrow> ([], s\<lparr>logger := logger s @ [Warnf ''mapping key not found'' mappingKey]\<rparr>)
              | Some item \<Rightarrow> (Value item, s))
      in case MappingUpdater E variedKey item_Value now (now + duration)
                (now + (duration + stale s1)) variedHeaders etag realKey of
           Inl e \<Rightarrow> (Some e, s1)
         | Inr val \<Rightarrow>
             (let s2 = s1\<lparr>logger := logger s1 @ [Debugf ''store the new mapping'' variedKey]\<rparr>
              in case negativeNow (clock s2) of
                   Inl err \<Rightarrow> (Some (Wrapped ''cannot generate the duration'' err), s2)
                 | Inr d \<Rightarrow> (None, cache_Set E s2 mappingKey val d)))"

definition SetMultiLevel ::
  "env \<Rightarrow> Simplefs \<Rightarrow> string \<Rightarrow> string \<Rightarrow> bytes \<Rightarrow> Header \<Rightarrow> string \<Rightarrow> Duration \<Rightarrow> string
     \<Rightarrow> (error option \<times> Simplefs) option" where
  "SetMultiLevel E s baseKey variedKey val variedHeaders etag duration realKey =
     (let now = clock s in
      case compress E s variedKey val of
        (Inl err, s0) \<Rightarrow> Some (Some err, s0)
      | (Inr compressed, s0) \<Rightarrow>
          (case recoverEnoughSpaceIfNeeded E (int (length compressed)) s0 of
             None \<Rightarrow> None
           | Some s1 \<Rightarrow>
               (let joinedFP = filepath_Join_PathEscape E (path s1) variedKey in
                case os_WriteFile E s1 joinedFP compressed of
                  None \<Rightarrow>
                    Some (None, s1\<lparr>logger := logger s1 @ [Errorf ''cannot write file'' variedKey]\<rparr>)
                | Some s2 \<Rightarrow>
                    Some (updateMapping E (cache_Set E s2 variedKey joinedFP duration) now
                            baseKey variedKey variedHeaders etag duration realKey))))"

definition Set :: "env \<Rightarrow> Simplefs \<Rightarrow> string \<Rightarrow> bytes \<Rightarrow> Duration \<Rightarrow> error option \<times> Simplefs" where
  "Set E s k val duration = (None, cache_Set E s k val duration)"

definition Delete :: "env \<Rightarrow> Simplefs \<Rightarrow> string \<Rightarrow> Simplefs" where
  "Delete E s k = cache_Delete E s k"

text \<open>\<open>Get\<close> returns \<open>None\<close> for Go's nil slice.\<close>

definition Get :: "env \<Rightarrow> Simplefs \<Rightarrow> string \<Rightarrow> bytes option \<times> Simplefs" where
  "Get E s k =
     (case cache_Get s k of
        None \<Rightarrow> (None, s\<lparr>logger := logger s @ [Warnf ''cannot get the key'' k]\<rparr>)
      | Some result \<Rightarrow>
          (let filePath = Value result in
           case os_ReadFile s filePath of
             None \<Rightarrow> (Some (Value result), s\<lparr>logger := logger s @ [Errorf ''cannot read file'' filePath]\<rparr>)
           | Some byteValue \<Rightarrow>
               (if compression s = ''lz4'' then
                  (case lz4_Reader E byteValue of
                     Inl err \<Rightarrow> (None, s\<lparr>logger := logger s @ [Debugf ''lz4'' k, Errorf ''lz4 decompression failed'' k]\<rparr>)
                   | Inr decompressedData \<Rightarrow> (Some decompressedData, s\<lparr>logger := logger s @ [Debugf ''lz4'' k]\<rparr>))
                else if compression s = ''zstd'' then
                  (case zstd_Reader E byteValue of
                     Inl err \<Rightarrow> (None, s\<lparr>logger := logger s @ [Debugf ''zstd'' k, Errorf ''zstd decompression failed'' k]\<rparr>)
                   | Inr decompressedData \<Rightarrow> (Some decompressedData, s\<lparr>logger := logger s @ [Debugf ''zstd'' k]\<rparr>))
                else if compression s = '''' then
                  (Some byteValue, s\<lparr>logger := logger s @ [Debugf ''no compression'' k]\<rparr>)
                else (None, s\<lparr>logger := logger s @ [Errorf ''unsupported compression method'' (compression s)]\<rparr>))))"

section \<open>Example environments and states\<close>

text \<open>
  A concrete environment for evaluating the engine: the reserved prefix is \<open>IDX_\<close>, the
  codecs put a tag in front of the payload, the merge appends the variant key to the
  record, a blob for key \<open>k\<close> is the file \<open>d/k\<close>, and every write succeeds.
\<close>

definition demo_env :: env where
  "demo_env =
     \<lparr>MappingKeyPrefix = ''IDX_'',
      MappingUpdater =
        (\<lambda>variedKey old now fresh stl hdr etag realKey. Inr (old @ variedKey @ '';'')),
      lz4_Writer = (\<lambda>b. Inr (''LZ4'' @ b)),
      zstd_Writer = (\<lambda>b. Inr (''ZSTD'' @ b)),
      lz4_Reader =
        (\<lambda>b. if take 3 b = ''LZ4'' then Inr (drop 3 b) else Inl (Error ''lz4: bad magic'')),
      zstd_Reader =
        (\<lambda>b. if take 4 b = ''ZSTD'' then Inr (drop 4 b) else Inl (Error ''zstd: bad magic'')),
      filepath_Join_PathEscape = (\<lambda>p k. p @ ''/'' @ k),
      WriteFile_fails = (\<lambda>p. False)\<rparr>"

text \<open>An engine just initialised on an empty directory, with a budget of 10 bytes.\<close>

definition fresh_engine :: Simplefs where
  "fresh_engine =
     \<lparr>cache = [], stale = 0, size_capacity = 0, path = ''d'', logger = [],
      actualSize = 0, directorySize = 10, compression = ''lz4'', files = [], clock = 1000\<rparr>"

text \<open>The same engine after two variants of 4 bytes each were stored.\<close>

definition two_blobs :: Simplefs where
  "two_blobs =
     \<lparr>cache =
        [\<lparr>Key = ''IDX_b'', Value = ''k2;'', ttl = - 2000000000000, expiresAt = - 1999999999000\<rparr>,
         \<lparr>Key = ''k2'', Value = ''d/k2'', ttl = 5, expiresAt = 1005\<rparr>,
         \<lparr>Key = ''k1'', Value = ''d/k1'', ttl = 5, expiresAt = 1005\<rparr>],
      stale = 0, size_capacity = 0, path = ''d'',
      logger =
        [Debugf ''actual size increased'' ''k1'', Warnf ''mapping key not found'' ''IDX_b'',
         Debugf ''store the new mapping'' ''k1'', Debugf ''actual size increased'' ''k2'',
         Warnf ''mapping key not found'' ''IDX_b'', Debugf ''store the new mapping'' ''k2''],
      actualSize = 8, directorySize = 10, compression = ''lz4'',
      files = [(''d/k1'', ''LZ4x''), (''d/k2'', ''LZ4y'')], clock = 1000\<rparr>"

text \<open>The fresh engine after one variant of 4 bytes was stored.\<close>

definition one_blob :: Simplefs where
  "one_blob =
     \<lparr>cache =
        [\<lparr>Key = ''IDX_b'', Value = ''k1;'', ttl = - 2000000000000, expiresAt = - 1999999999000\<rparr>,
         \<lparr>Key = ''k1'', Value = ''d/k1'', ttl = 5, expiresAt = 1005\<rparr>],
      stale = 0, size_capacity = 0, path = ''d'',
      logger =
        [Debugf ''actual size increased'' ''k1'', Warnf ''mapping key not found'' ''IDX_b'',
         Debugf ''store the new mapping'' ''k1''],
      actualSize = 4, directorySize = 10, compression = ''lz4'',
      files = [(''d/k1'', ''LZ4x'')], clock = 1000\<rparr>"

text \<open>
  An engine without compression and with a budget of 10 bytes; a file \<open>f\<close> of 20 bytes
  exists, outside the engine's accounting.
\<close>

definition engine_with_file :: Simplefs where
  "engine_with_file =
     \<lparr>cache = [], stale = 0, size_capacity = 0, path = ''d'', logger = [],
      actualSize = 0, directorySize = 10, compression = '''',
      files = [(''f'', ''0123456789abcdefghij'')], clock = 1000\<rparr>"

text \<open>The engine with one blob after the plain \<open>Set\<close> of a payload under the key \<open>k\<close>.\<close>

definition raw_entry :: Item where
  "raw_entry = \<lparr>Key = ''k'', Value = ''payload'', ttl = 5, expiresAt = 1005\<rparr>"

definition one_blob_and_raw :: Simplefs where
  "one_blob_and_raw = one_blob\<lparr>cache := raw_entry # cache one_blob\<rparr>"

text \<open>
  Variations: an engine configured with a method that is not supported, an environment
  whose merge function fails, and one in which no file can be written.
\<close>

definition gzip_engine :: Simplefs where
  "gzip_engine = fresh_engine\<lparr>compression := ''gzip''\<rparr>"


definition readonly_env :: env where
  "readonly_env = demo_env\<lparr>WriteFile_fails := (\<lambda>p. True)\<rparr>"

text \<open>The fresh engine with the default method, the empty string.\<close>

definition uncompressed_engine :: Simplefs where
  "uncompressed_engine = fresh_engine\<lparr>compression := ''''\<rparr>"

section \<open>Facts about the hooks and the index\<close>

lemma OnEviction_actualSize_le: "actualSize (OnEviction E r it s) \<le> actualSize s"
  by (simp add: OnEviction_def os_Stat_def onEvict_def Let_def split: option.splits)

lemma OnEviction_fields:
  "directorySize (OnEviction E r it s) = directorySize s"
  "path (OnEviction E r it s) = path s"
  "clock (OnEviction E r it s) = clock s"
  "compression (OnEviction E r it s) = compression s"
  "size_capacity (OnEviction E r it s) = size_capacity s"
  "stale (OnEviction E r it s) = stale s"
  "cache (OnEviction E r it s) = cache s"
  by (simp_all add: OnEviction_def os_Stat_def onEvict_def Let_def split: option.splits)

lemma OnEviction_files:
  "map_of (files (OnEviction E r it s)) p = Some b \<Longrightarrow> map_of (files s) p = Some b"
  by (simp add: OnEviction_def os_Stat_def onEvict_def Let_def delete_conv
      split: option.splits if_splits)

lemma OnEviction_absent:
  "map_of (files s) (Value it) = None \<Longrightarrow>
     actualSize (OnEviction E r it s) = actualSize s \<and> files (OnEviction E r it s) = files s"
  by (simp add: OnEviction_def os_Stat_def)

lemma OnInsertion_fields:
  "directorySize (OnInsertion E it s) = directorySize s"
  "path (OnInsertion E it s) = path s"
  "clock (OnInsertion E it s) = clock s"
  "compression (OnInsertion E it s) = compression s"
  "size_capacity (OnInsertion E it s) = size_capacity s"
  "stale (OnInsertion E it s) = stale s"
  "cache (OnInsertion E it s) = cache s"
  "files (OnInsertion E it s) = files s"
  by (simp_all add: OnInsertion_def os_Stat_def split: option.splits)

lemma OnInsertion_actualSize:
  "actualSize (OnInsertion E it s) =
     actualSize s + (if strings_Contains (Key it) (MappingKeyPrefix E) then 0
                     else case map_of (files s) (Value it) of None \<Rightarrow> 0 | Some b \<Rightarrow> int (length b))"
  by (simp add: OnInsertion_def os_Stat_def split: option.splits)

lemma cache_evict_actualSize_le: "actualSize (cache_evict E r it s) \<le> actualSize s"
  using OnEviction_actualSize_le [of E r it "s\<lparr>cache := filter (\<lambda>i. Key i \<noteq> Key it) (cache s)\<rparr>"]
  by (simp add: cache_evict_def)

lemma cache_evict_fields:
  "directorySize (cache_evict E r it s) = directorySize s"
  "path (cache_evict E r it s) = path s"
  "clock (cache_evict E r it s) = clock s"
  "compression (cache_evict E r it s) = compression s"
  "size_capacity (cache_evict E r it s) = size_capacity s"
  "stale (cache_evict E r it s) = stale s"
  "cache (cache_evict E r it s) = filter (\<lambda>i. Key i \<noteq> Key it) (cache s)"
  by (simp_all add: cache_evict_def OnEviction_fields)

lemma cache_evict_files:
  "map_of (files (cache_evict E r it s)) p = Some b \<Longrightarrow> map_of (files s) p = Some b"
  using OnEviction_files [of E r it "s\<lparr>cache := filter (\<lambda>i. Key i \<noteq> Key it) (cache s)\<rparr>" p b]
  by (simp add: cache_evict_def)

lemma cache_evict_absent:
  "map_of (files s) (Value it) = None \<Longrightarrow>
     actualSize (cache_evict E r it s) = actualSize s \<and> files (cache_evict E r it s) = files s"
  using OnEviction_absent [of "s\<lparr>cache := filter (\<lambda>i. Key i \<noteq> Key it) (cache s)\<rparr>" it E r]
  by (simp add: cache_evict_def)

lemma cache_Delete_actualSize_le: "actualSize (cache_Delete E s k) \<le> actualSize s"
  by (simp add: cache_Delete_def cache_evict_actualSize_le split: option.splits)

lemma cache_Delete_fields:
  "directorySize (cache_Delete E s k) = directorySize s"
  "path (cache_Delete E s k) = path s"
  "clock (cache_Delete E s k) = clock s"
  "compression (cache_Delete E s k) = compression s"
  "size_capacity (cache_Delete E s k) = size_capacity s"
  "stale (cache_Delete E s k) = stale s"
  by (simp_all add: cache_Delete_def cache_evict_fields split: option.splits)


lemma cache_Delete_files:
  "map_of (files (cache_Delete E s k)) p = Some b \<Longrightarrow> map_of (files s) p = Some b"
  by (auto simp add: cache_Delete_def split: option.splits dest: cache_evict_files)

lemma cache_Set_fields:
  "directorySize (cache_Set E s k v d) = directorySize s"
  "path (cache_Set E s k v d) = path s"
  "clock (cache_Set E s k v d) = clock s"
  "compression (cache_Set E s k v d) = compression s"
  "size_capacity (cache_Set E s k v d) = size_capacity s"
  "stale (cache_Set E s k v d) = stale s"
  by (simp_all add: cache_Set_def Let_def OnInsertion_fields cache_evict_fields
      split: option.splits list.splits)

lemma cache_Set_files:
  "map_of (files (cache_Set E s k v d)) p = Some b \<Longrightarrow> map_of (files s) p = Some b"
  by (auto simp add: cache_Set_def Let_def OnInsertion_fields
      split: option.splits list.splits if_splits dest: cache_evict_files)

lemma cache_Set_find:
  "find (\<lambda>i. Key i = k) (cache (cache_Set E s k v d)) =
     Some \<lparr>Key = k, Value = v, ttl = d, expiresAt = clock s + d\<rparr>"
  by (simp add: cache_Set_def Let_def OnInsertion_fields split: option.splits list.splits)

lemma cache_Set_actualSize_le:
  "actualSize (cache_Set E s k v d) \<le>
     actualSize s + (if strings_Contains k (MappingKeyPrefix E) then 0
                     else case map_of (files s) v of None \<Rightarrow> 0 | Some b \<Rightarrow> int (length b))"
proof (cases "find (\<lambda>i. Key i = k) (cache s)")
  case (Some old)
  then show ?thesis
    by (simp add: cache_Set_def Let_def OnInsertion_actualSize)
next
  case None
  define s1 where "s1 = (if size_capacity s \<noteq> 0 \<and> size_capacity s \<le> length (cache s)
                     then (case rev (cache s) of
                             [] \<Rightarrow> s
                           | oldest # others \<Rightarrow>
                               cache_evict E EvictionReasonCapacityReached oldest s)
                     else s)"
  have a: "actualSize s1 \<le> actualSize s"
    by (simp add: s1_def cache_evict_actualSize_le split: list.splits)
  have f: "(case map_of (files s1) v of None \<Rightarrow> 0 | Some b \<Rightarrow> int (length b))
            \<le> (case map_of (files s) v of None \<Rightarrow> 0 | Some b \<Rightarrow> int (length b))"
    by (auto simp add: s1_def split: list.splits option.splits dest: cache_evict_files)
  have "cache_Set E s k v d =
          OnInsertion E \<lparr>Key = k, Value = v, ttl = d, expiresAt = clock s + d\<rparr>
            (s1\<lparr>cache := \<lparr>Key = k, Value = v, ttl = d, expiresAt = clock s + d\<rparr> # cache s1\<rparr>)"
    using None by (simp add: cache_Set_def Let_def s1_def)
  then show ?thesis using a f
    by (simp add: OnInsertion_actualSize)
qed


lemma RangeBackwards_Delete:
  "cache_RangeBackwards (\<lambda>item s'. (cache_Delete E s' (Value item), False)) s =
     (case rev (cache s) of [] \<Rightarrow> s | item # older \<Rightarrow> cache_Delete E s (Value item))"
  by (simp add: cache_RangeBackwards_def split: list.splits)

lemma RangeBackwards_Delete_fields:
  "directorySize (cache_RangeBackwards (\<lambda>item s'. (cache_Delete E s' (Value item), False)) s) = directorySize s"
  "path (cache_RangeBackwards (\<lambda>item s'. (cache_Delete E s' (Value item), False)) s) = path s"
  "clock (cache_RangeBackwards (\<lambda>item s'. (cache_Delete E s' (Value item), False)) s) = clock s"
  "compression (cache_RangeBackwards (\<lambda>item s'. (cache_Delete E s' (Value item), False)) s) = compression s"
  "size_capacity (cache_RangeBackwards (\<lambda>item s'. (cache_Delete E s' (Value item), False)) s) = size_capacity s"
  "stale (cache_RangeBackwards (\<lambda>item s'. (cache_Delete E s' (Value item), False)) s) = stale s"
  by (simp_all add: RangeBackwards_Delete cache_Delete_fields split: list.splits)

lemma recover_diverges:
  assumes "recoverEnoughSpaceIfNeeded E sz s = Some y"
  shows "\<not> (directorySize s > -1 \<and> actualSize s + sz > directorySize s \<and>
      cache_RangeBackwards (\<lambda>item s'. (cache_Delete E s' (Value item), False)) s = s)"
  by (rule recoverEnoughSpaceIfNeeded.raw_induct
      [where P = "\<lambda>E sz s y. \<not> (directorySize s > -1 \<and> actualSize s + sz > directorySize s \<and>
      cache_RangeBackwards (\<lambda>item s'. (cache_Delete E s' (Value item), False)) s = s)", OF _ assms])
     (auto split: if_splits)

lemma recover_returns:
  assumes "recoverEnoughSpaceIfNeeded E sz s = Some y"
  shows "\<not> (directorySize y > -1 \<and> actualSize y + sz > directorySize y) \<and>
         directorySize y = directorySize s \<and> path y = path s \<and> clock y = clock s \<and>
         compression y = compression s \<and> size_capacity y = size_capacity s \<and> stale y = stale s"
proof (rule recoverEnoughSpaceIfNeeded.raw_induct
      [where P = "\<lambda>E sz s y. \<not> (directorySize y > -1 \<and> actualSize y + sz > directorySize y) \<and>
         directorySize y = directorySize s \<and> path y = path s \<and> clock y = clock s \<and>
         compression y = compression s \<and> size_capacity y = size_capacity s \<and> stale y = stale s",
       OF _ assms], goal_cases)
  case (1 recover E sz s y)
  show ?case
  proof (cases "directorySize s > -1 \<and> actualSize s + sz > directorySize s")
    case True
    with 1(2) have "recover E sz
        (cache_RangeBackwards (\<lambda>item s'. (cache_Delete E s' (Value item), False)) s) = Some y"
      by simp
    from 1(1)[OF this] show ?thesis
      by (auto simp add: RangeBackwards_Delete_fields)
  next
    case False
    with 1(2) have "y = s" by auto
    with False show ?thesis by simp
  qed
qed

lemma recover_fits:
  "\<not> (directorySize s > -1 \<and> actualSize s + sz > directorySize s) \<Longrightarrow>
     recoverEnoughSpaceIfNeeded E sz s = Some s"
  by (subst recoverEnoughSpaceIfNeeded.simps) auto

section \<open>Facts about the steps of SetMultiLevel\<close>

lemma compress_fields:
  assumes "compress E s vk v = (r, s0)"
  shows "cache s0 = cache s" "actualSize s0 = actualSize s" "directorySize s0 = directorySize s"
    "files s0 = files s" "path s0 = path s" "clock s0 = clock s" "stale s0 = stale s"
    "size_capacity s0 = size_capacity s" "compression s0 = compression s"
  using assms by (auto simp add: compress_def split: if_splits sum.splits)

lemma negativeNow_value:
  "negativeNow t = Inr (- (t mod 1000000000 * 2 * 1000000000))"
proof -
  have "0 \<le> t mod 1000000000" "t mod 1000000000 < 1000000000"
    by simp_all
  then show ?thesis
    by (auto simp add: negativeNow_def ParseDuration_minus_seconds_def time_Nanosecond_def)
qed

lemma negativeNow_le_0:
  assumes "negativeNow t = Inr d"
  shows "d \<le> 0"
proof -
  have "0 \<le> t mod 1000000000" by simp
  with assms show ?thesis by (auto simp add: negativeNow_value)
qed

lemma Contains_mapping_key: "strings_Contains (MappingKeyPrefix E @ baseKey) (MappingKeyPrefix E)"
  by (simp add: strings_Contains_def)

lemma cache_Set_mapping_actualSize_le:
  "actualSize (cache_Set E s (MappingKeyPrefix E @ bk) v d) \<le> actualSize s"
  using cache_Set_actualSize_le [of E s "MappingKeyPrefix E @ bk" v d]
  by (simp add: Contains_mapping_key)

lemma updateMapping_failure:
  assumes "updateMapping E s now bk vk h etag d rk = (Some e, s')"
  shows "cache s' = cache s \<and> files s' = files s \<and> actualSize s' = actualSize s"
  using assms
  by (auto simp add: updateMapping_def Let_def negativeNow_value
      split: option.splits sum.splits prod.splits)

lemma updateMapping_actualSize_le:
  assumes "updateMapping E s now bk vk h etag d rk = (r, s')"
  shows "actualSize s' \<le> actualSize s"
proof (cases r)
  case (Some e)
  with assms updateMapping_failure [of E s now bk vk h etag d rk e s'] show ?thesis
    by simp
next
  case None
  with assms obtain s2 val t where
    "s' = cache_Set E s2 (MappingKeyPrefix E @ bk) val t" "actualSize s2 = actualSize s"
    by (auto simp add: updateMapping_def Let_def split: option.splits sum.splits prod.splits)
  then show ?thesis
    using cache_Set_mapping_actualSize_le [of E s2 bk val t] by simp
qed

lemma updateMapping_directorySize:
  assumes "updateMapping E s now bk vk h etag d rk = (r, s')"
  shows "directorySize s' = directorySize s"
  using assms
  by (auto simp add: updateMapping_def Let_def negativeNow_value cache_Set_fields
      split: option.splits sum.splits prod.splits)

lemma os_WriteFile_Some:
  "os_WriteFile E s p b = Some s2 \<Longrightarrow>
     \<not> WriteFile_fails E p \<and> s2 = s\<lparr>files := AList.update p b (files s)\<rparr>"
  by (simp add: os_WriteFile_def split: if_splits)

lemma SetMultiLevel_after_write:
  assumes c: "compress E s variedKey val = (Inr compressed, s0)"
    and rec: "recoverEnoughSpaceIfNeeded E (int (length compressed)) s0 = Some s1"
    and fp: "fp = filepath_Join_PathEscape E (path s1) variedKey"
    and w: "os_WriteFile E s1 fp compressed = Some s2"
    and s3: "s3 = cache_Set E s2 variedKey fp duration"
  shows "SetMultiLevel E s baseKey variedKey val variedHeaders etag duration realKey
           = Some (updateMapping E s3 (clock s) baseKey variedKey variedHeaders etag duration realKey)"
    and "clock s3 = clock s" and "stale s3 = stale s"
    and "find (\<lambda>i. Key i = variedKey) (cache s3)
           = Some \<lparr>Key = variedKey, Value = fp, ttl = duration, expiresAt = clock s + duration\<rparr>"
proof -
  show "SetMultiLevel E s baseKey variedKey val variedHeaders etag duration realKey
           = Some (updateMapping E s3 (clock s) baseKey variedKey variedHeaders etag duration realKey)"
    using c rec w by (simp add: SetMultiLevel_def Let_def fp [symmetric] s3)
  have s2: "clock s2 = clock s1" "stale s2 = stale s1"
    using w by (auto dest: os_WriteFile_Some)
  with recover_returns [OF rec] compress_fields(6,7) [OF c]
  have k: "clock s2 = clock s" "stale s2 = stale s" by simp_all
  then show "clock s3 = clock s" "stale s3 = stale s"
    by (simp_all add: s3 cache_Set_fields)
  show "find (\<lambda>i. Key i = variedKey) (cache s3)
           = Some \<lparr>Key = variedKey, Value = fp, ttl = duration, expiresAt = clock s + duration\<rparr>"
    by (simp add: s3 cache_Set_find k)
qed

text \<open>With no capacity bound a set evicts nothing.\<close>

lemma cache_Set_unbounded:
  assumes "size_capacity s = 0"
  shows "files (cache_Set E s k v d) = files s"
    and "cache (cache_Set E s k v d)
           = \<lparr>Key = k, Value = v, ttl = d, expiresAt = clock s + d\<rparr>
               # filter (\<lambda>i. Key i \<noteq> k) (cache s)"
proof -
  show "files (cache_Set E s k v d) = files s"
    using assms by (simp add: cache_Set_def Let_def OnInsertion_fields split: option.splits)
  have "find (\<lambda>i. Key i = k) (cache s) = None \<Longrightarrow> filter (\<lambda>i. Key i \<noteq> k) (cache s) = cache s"
    by (simp add: find_None_iff filter_id_conv)
  then show "cache (cache_Set E s k v d)
           = \<lparr>Key = k, Value = v, ttl = d, expiresAt = clock s + d\<rparr>
               # filter (\<lambda>i. Key i \<noteq> k) (cache s)"
    using assms by (simp add: cache_Set_def Let_def OnInsertion_fields split: option.splits)
qed

lemma updateMapping_fields:
  assumes "updateMapping E s now bk vk h etag d rk = (r, s')"
  shows "clock s' = clock s" "compression s' = compression s" "size_capacity s' = size_capacity s"
  using assms
  by (auto simp add: updateMapping_def Let_def negativeNow_value cache_Set_fields
      split: option.splits sum.splits prod.splits)

lemma updateMapping_unbounded:
  assumes um: "updateMapping E s now bk vk h etag d rk = (r, s')"
    and cap: "size_capacity s = 0"
  shows "files s' = files s"
    and "k \<noteq> MappingKeyPrefix E @ bk \<Longrightarrow>
           find (\<lambda>i. Key i = k) (cache s') = find (\<lambda>i. Key i = k) (cache s)"
proof -
  show "files s' = files s"
  proof (cases r)
    case (Some e)
    with um updateMapping_failure [of E s now bk vk h etag d rk e s'] show ?thesis by simp
  next
    case None
    with um obtain s2 val t where
      "s' = cache_Set E s2 (MappingKeyPrefix E @ bk) val t" "files s2 = files s"
      "size_capacity s2 = size_capacity s"
      by (auto simp add: updateMapping_def Let_def split: option.splits sum.splits prod.splits)
    with cap show ?thesis by (simp add: cache_Set_unbounded)
  qed
  assume k: "k \<noteq> MappingKeyPrefix E @ bk"
  have f: "find (\<lambda>i. Key i = k) (filter (\<lambda>i. Key i \<noteq> m) xs) = find (\<lambda>i. Key i = k) xs"
    if "k \<noteq> m" for m and xs :: "Item list"
    using that by (induction xs) auto
  show "find (\<lambda>i. Key i = k) (cache s') = find (\<lambda>i. Key i = k) (cache s)"
  proof (cases r)
    case (Some e)
    with um updateMapping_failure [of E s now bk vk h etag d rk e s'] show ?thesis by simp
  next
    case None
    with um obtain s2 val t where
      "s' = cache_Set E s2 (MappingKeyPrefix E @ bk) val t" "cache s2 = cache s"
      "size_capacity s2 = size_capacity s"
      by (auto simp add: updateMapping_def Let_def split: option.splits sum.splits prod.splits)
    with cap k show ?thesis by (simp add: cache_Set_unbounded f)
  qed
qed

lemma SetMultiLevel_after_write_fields:
  assumes c: "compress E s variedKey val = (Inr compressed, s0)"
    and rec: "recoverEnoughSpaceIfNeeded E (int (length compressed)) s0 = Some s1"
    and w: "os_WriteFile E s1 fp compressed = Some s2"
    and s3: "s3 = cache_Set E s2 variedKey fp duration"
  shows "size_capacity s3 = size_capacity s" and "compression s3 = compression s"
    and "s2 = s1\<lparr>files := AList.update fp compressed (files s1)\<rparr>"
proof -
  show s2: "s2 = s1\<lparr>files := AList.update fp compressed (files s1)\<rparr>"
    using w by (simp add: os_WriteFile_Some)
  show "size_capacity s3 = size_capacity s" "compression s3 = compression s"
    using recover_returns [OF rec] compress_fields(8,9) [OF c]
    by (simp_all add: s3 s2 cache_Set_fields)
qed

text \<open>A write whose compressed payload fits in the budget does return.\<close>

lemma SetMultiLevel_returns_when_fits:
  assumes c: "compress E s variedKey val = (Inr compressed, s0)"
    and fits: "\<not> (directorySize s > -1 \<and> actualSize s + int (length compressed) > directorySize s)"
  shows "\<exists>r. SetMultiLevel E s baseKey variedKey val variedHeaders etag duration realKey = Some r"
proof -
  have "recoverEnoughSpaceIfNeeded E (int (length compressed)) s0 = Some s0"
    using fits compress_fields(2,3) [OF c] by (intro recover_fits) simp
  with c show ?thesis
    by (simp add: SetMultiLevel_def Let_def split: option.splits)
qed

section \<open>The quota reclaimer\<close>

lemma two_blobs_reached:
  "SetMultiLevel demo_env
     (snd (the (SetMultiLevel demo_env fresh_engine ''b'' ''k1'' ''x'' [] ''e'' 5 ''r'')))
     ''b'' ''k2'' ''y'' [] ''e'' 5 ''r'' = Some (None, two_blobs)"
  by code_simp

lemma two_blobs_oldest_not_evicted:
  "cache_RangeBackwards (\<lambda>item s'. (cache_Delete demo_env s' (Value item), False)) two_blobs
     = two_blobs"
  by code_simp

text \<open>
  Claim C2: the quota reclamation invoked before a blob write terminates for every
  engine state and every payload size, evicting the least recently used entry at each
  step until the budget is met or the index is empty.

  The code does not: the recursion has no case for the empty index, and the visitor
  deletes the key equal to the oldest entry's value (its file path), which is the key
  of no entry. With a budget of 10 bytes, a payload of 11 bytes on the empty index
  never returns; with two blobs of 4 bytes in the index, the reclamation for a third
  one evicts nothing and never returns, and neither does the write.
\<close>

theorem reclaim_never_returns:
  "recoverEnoughSpaceIfNeeded demo_env 11 fresh_engine = None \<and>
   recoverEnoughSpaceIfNeeded demo_env 4 two_blobs = None \<and>
   SetMultiLevel demo_env two_blobs ''b'' ''k3'' ''z'' [] ''e'' 5 ''r'' = None"
proof -
  have a: "recoverEnoughSpaceIfNeeded demo_env 11 fresh_engine = None"
  proof (cases "recoverEnoughSpaceIfNeeded demo_env 11 fresh_engine")
    case (Some y)
    from recover_diverges [OF Some] show ?thesis
      by (simp add: fresh_engine_def cache_RangeBackwards_def)
  qed simp
  have b: "recoverEnoughSpaceIfNeeded demo_env 4 two_blobs = None"
  proof (cases "recoverEnoughSpaceIfNeeded demo_env 4 two_blobs")
    case (Some y)
    from recover_diverges [OF Some] two_blobs_oldest_not_evicted show ?thesis
      by (simp add: two_blobs_def)
  qed simp
  have c: "compress demo_env two_blobs ''k3'' ''z'' = (Inr ''LZ4z'', two_blobs)"
    by (simp add: compress_def demo_env_def two_blobs_def)
  show ?thesis using a b c
    by (simp add: SetMultiLevel_def)
qed

section \<open>The directory budget\<close>

text \<open>
  Claim C1: after every successful set operation, if a finite directory budget \<open>B\<close> is
  configured, \<open>actualSize \<le> B\<close>, unless the incoming payload alone exceeds \<open>B\<close>, in which
  case the index is drained and \<open>actualSize\<close> is the size of that payload.

  As stated the claim fails for the plain \<open>Set\<close>, which never consults the budget: with
  a budget of 10 bytes and a counter of 0, setting a payload of one byte that names an
  existing file of 20 bytes succeeds and leaves the counter at 20.
\<close>

theorem Set_exceeds_budget:
  "fst (Set demo_env engine_with_file ''k'' ''f'' 5) = None \<and>
   directorySize engine_with_file = 10 \<and>
   actualSize engine_with_file = 0 \<and>
   int (length ''f'') \<le> directorySize engine_with_file \<and>
   directorySize (snd (Set demo_env engine_with_file ''k'' ''f'' 5)) = 10 \<and>
   actualSize (snd (Set demo_env engine_with_file ''k'' ''f'' 5)) = 20 \<and>
   \<not> actualSize (snd (Set demo_env engine_with_file ''k'' ''f'' 5))
       \<le> directorySize (snd (Set demo_env engine_with_file ''k'' ''f'' 5))"
  by code_simp

text \<open>
  Claim C1, amended: every call of \<open>SetMultiLevel\<close> that returns success, with a finite
  budget configured, leaves the budget as it was and \<open>actualSize\<close> within it.
\<close>

theorem SetMultiLevel_within_budget:
  assumes ret: "SetMultiLevel E s baseKey variedKey val variedHeaders etag duration realKey
                  = Some (None, s')"
    and budget: "directorySize s > -1"
  shows "directorySize s' = directorySize s \<and> actualSize s' \<le> directorySize s'"
proof -
  obtain r s0 where c: "compress E s variedKey val = (r, s0)"
    by (cases "compress E s variedKey val")
  from ret c obtain compressed where r: "r = Inr compressed"
    by (cases r) (simp_all add: SetMultiLevel_def)
  from ret c r obtain s1 where
    rec: "recoverEnoughSpaceIfNeeded E (int (length compressed)) s0 = Some s1"
    by (cases "recoverEnoughSpaceIfNeeded E (int (length compressed)) s0")
       (simp_all add: SetMultiLevel_def)
  note post = recover_returns [OF rec]
  have d1: "directorySize s1 = directorySize s"
    using post compress_fields(3) [OF c] by simp
  have a1: "actualSize s1 + int (length compressed) \<le> directorySize s"
    using post d1 budget by auto
  define fp where "fp = filepath_Join_PathEscape E (path s1) variedKey"
  show ?thesis
  proof (cases "os_WriteFile E s1 fp compressed")
    case None
    with ret c r rec have "s' = s1\<lparr>logger := logger s1 @ [Errorf ''cannot write file'' variedKey]\<rparr>"
      by (simp add: SetMultiLevel_def fp_def)
    with d1 a1 show ?thesis by simp
  next
    case (Some s2)
    then have s2: "s2 = s1\<lparr>files := AList.update fp compressed (files s1)\<rparr>"
      by (simp add: os_WriteFile_Some)
    define s3 where "s3 = cache_Set E s2 variedKey fp duration"
    from ret c r rec Some have
      um: "updateMapping E s3 (clock s) baseKey variedKey variedHeaders etag duration realKey
             = (None, s')"
      by (simp add: SetMultiLevel_def fp_def s3_def Let_def)
    have "actualSize s3 \<le> actualSize s2 + int (length compressed)"
      using cache_Set_actualSize_le [of E s2 variedKey fp duration]
      by (simp add: s3_def s2 update_conv' split: if_splits)
    then have a3: "actualSize s3 \<le> directorySize s"
      using a1 by (simp add: s2)
    have d3: "directorySize s3 = directorySize s"
      by (simp add: s3_def cache_Set_fields s2 d1)
    from updateMapping_actualSize_le [OF um] updateMapping_directorySize [OF um] a3 d3
    show ?thesis by simp
  qed
qed

lemma one_blob_reached:
  "SetMultiLevel demo_env fresh_engine ''b'' ''k1'' ''x'' [] ''e'' 5 ''r'' = Some (None, one_blob)"
  by code_simp

theorem SetMultiLevel_within_budget_witness:
  "SetMultiLevel demo_env fresh_engine ''b'' ''k1'' ''x'' [] ''e'' 5 ''r'' = Some (None, one_blob) \<and>
   directorySize fresh_engine > -1 \<and>
   directorySize one_blob = directorySize fresh_engine \<and>
   actualSize one_blob \<le> directorySize one_blob"
proof -
  have b: "directorySize fresh_engine > -1"
    by (simp add: fresh_engine_def)
  from SetMultiLevel_within_budget [OF one_blob_reached b] one_blob_reached b
  show ?thesis by simp
qed

section \<open>The round trip through Get\<close>

lemma cache_Set_files_absent:
  "map_of (files s) p = None \<Longrightarrow> map_of (files (cache_Set E s k v d)) p = None"
  using cache_Set_files [of E s k v d p]
  by (cases "map_of (files (cache_Set E s k v d)) p") auto

text \<open>
  Claim C3: for every key, every payload \<open>v\<close> and every ttl \<open>> 0\<close>, \<open>set(k, v, ttl)\<close>
  followed at once by \<open>get(k)\<close> returns \<open>v\<close>, for each of the compression methods none
  (the empty string), lz4 and zstd.

  The code does not. With the empty string as method, the default, which the comment on
  the field gives as no compression, \<open>SetMultiLevel\<close> compresses with lz4 and \<open>Get\<close> returns
  the bytes of the file as they are: the payload \<open>x\<close> comes back as its lz4 stream, here
  \<open>LZ4x\<close>, although the codec itself reads that stream back as \<open>x\<close>. And the plain \<open>Set\<close>
  registers the payload as the value of the entry, which \<open>Get\<close> reads as a file path: a
  payload \<open>f\<close> that names an existing file comes back as the content of that file.
\<close>

theorem empty_method_breaks_round_trip:
  "compression uncompressed_engine = '''' \<and>
   lz4_Writer demo_env ''x'' = Inr ''LZ4x'' \<and>
   lz4_Reader demo_env ''LZ4x'' = Inr ''x'' \<and>
   map_option fst (SetMultiLevel demo_env uncompressed_engine ''b'' ''k1'' ''x'' [] ''e'' 5 ''r'')
     = Some None \<and>
   map_option (\<lambda>r. fst (Get demo_env (snd r) ''k1''))
       (SetMultiLevel demo_env uncompressed_engine ''b'' ''k1'' ''x'' [] ''e'' 5 ''r'')
     = Some (Some ''LZ4x'') \<and>
   fst (Get demo_env (snd (Set demo_env engine_with_file ''k'' ''f'' 5)) ''k'')
     = Some ''0123456789abcdefghij''"
  by code_simp

text \<open>
  The same for every codec and every engine configured with the empty string: after a
  write that reaches the file, with no capacity bound, \<open>Get\<close> returns what the lz4 writer
  produced, not the payload.
\<close>

lemma empty_method_reads_back_lz4_stream:
  assumes e: "compression s = ''''"
    and z: "lz4_Writer E val = Inr compressed"
    and rec: "recoverEnoughSpaceIfNeeded E (int (length compressed)) s = Some s1"
    and fp: "fp = filepath_Join_PathEscape E (path s1) variedKey"
    and w: "\<not> WriteFile_fails E fp"
    and cap: "size_capacity s = 0"
    and d: "0 < duration"
    and k: "variedKey \<noteq> MappingKeyPrefix E @ baseKey"
  shows "\<exists>r s'. SetMultiLevel E s baseKey variedKey val variedHeaders etag duration realKey
                   = Some (r, s') \<and>
                fst (Get E s' variedKey) = Some compressed"
proof -
  define s3 where
    "s3 = cache_Set E (s1\<lparr>files := AList.update fp compressed (files s1)\<rparr>) variedKey fp duration"
  have c: "compress E s variedKey val = (Inr compressed, s)"
    using e z by (simp add: compress_def)
  have wr: "os_WriteFile E s1 fp compressed
              = Some (s1\<lparr>files := AList.update fp compressed (files s1)\<rparr>)"
    using w by (simp add: os_WriteFile_def)
  note a = SetMultiLevel_after_write [OF c rec fp wr s3_def]
  note b = SetMultiLevel_after_write_fields [OF c rec wr s3_def]
  obtain r s' where um:
    "updateMapping E s3 (clock s) baseKey variedKey variedHeaders etag duration realKey = (r, s')"
    by (cases "updateMapping E s3 (clock s) baseKey variedKey variedHeaders etag duration realKey")
  have cap3: "size_capacity s3 = 0"
    using b(1) cap by simp
  have "files s' = files s3"
    using updateMapping_unbounded(1) [OF um cap3] .
  also have "\<dots> = AList.update fp compressed (files s1)"
    using cap recover_returns [OF rec] by (simp add: s3_def cache_Set_unbounded)
  finally have rd: "os_ReadFile s' fp = Some compressed"
    by (simp add: os_ReadFile_def update_conv')
  have fnd: "find (\<lambda>i. Key i = variedKey) (cache s')
               = Some \<lparr>Key = variedKey, Value = fp, ttl = duration, expiresAt = clock s + duration\<rparr>"
    using updateMapping_unbounded(2) [OF um cap3 k] a(4) by simp
  have ck: "clock s' = clock s" "compression s' = ''''"
    using updateMapping_fields(1,2) [OF um] a(2) b(2) e by simp_all
  have g: "cache_Get s' variedKey
             = Some \<lparr>Key = variedKey, Value = fp, ttl = duration, expiresAt = clock s + duration\<rparr>"
    using d by (simp add: cache_Get_def fnd ck isExpired_def)
  have "fst (Get E s' variedKey) = Some compressed"
    using g rd ck by (simp add: Get_def)
  with a(1) um have
    "SetMultiLevel E s baseKey variedKey val variedHeaders etag duration realKey = Some (r, s') \<and>
     fst (Get E s' variedKey) = Some compressed"
    by simp
  then show ?thesis
    by (intro exI [of _ r] exI [of _ s'])
qed

text \<open>
  What the plain \<open>Set\<close> and \<open>Get\<close> do give: for a payload that names no existing file
  and a ttl \<open>> 0\<close>, \<open>Set\<close> returns no error and the \<open>Get\<close> that follows at once returns
  the payload, whatever the configured method, through the fallback of \<open>Get\<close> when the
  read fails.
\<close>

lemma Set_then_Get:
  assumes "0 < duration" and "map_of (files s) val = None"
  shows "fst (Set E s k val duration) = None \<and>
         fst (Get E (snd (Set E s k val duration)) k) = Some val"
proof -
  define s1 where "s1 = cache_Set E s k val duration"
  have f: "find (\<lambda>i. Key i = k) (cache s1)
             = Some \<lparr>Key = k, Value = val, ttl = duration, expiresAt = clock s + duration\<rparr>"
    by (simp add: s1_def cache_Set_find)
  have c: "clock s1 = clock s"
    by (simp add: s1_def cache_Set_fields)
  have g: "cache_Get s1 k
             = Some \<lparr>Key = k, Value = val, ttl = duration, expiresAt = clock s + duration\<rparr>"
    using assms(1) by (simp add: cache_Get_def f c isExpired_def)
  have r: "os_ReadFile s1 val = None"
    using assms(2) by (simp add: os_ReadFile_def s1_def cache_Set_files_absent)
  show ?thesis
    using g r by (simp add: Set_def Get_def s1_def [symmetric])
qed

lemma Set_then_Get_example:
  "(0::int) < 5 \<and> map_of (files fresh_engine) ''payload'' = None \<and>
   fst (Set demo_env fresh_engine ''k'' ''payload'' 5) = None \<and>
   fst (Get demo_env (snd (Set demo_env fresh_engine ''k'' ''payload'' 5)) ''k'') = Some ''payload''"
proof -
  have a: "(0::int) < 5" by simp
  have b: "map_of (files fresh_engine) ''payload'' = None"
    by (simp add: fresh_engine_def)
  from Set_then_Get [OF a b, of demo_env "''k''"] a b show ?thesis by simp
qed

text \<open>
  Claim C9: a simple-key write \<open>set(k, v, ttl)\<close> passes the payload through the codec,
  consults the quota reclaimer, persists the bytes as a file of the blob store and
  registers the file path, not the raw payload, in the index under \<open>k\<close>, which triggers
  the byte accountant through the insertion notification.

  As stated the claim fails: on a fresh engine configured with lz4, \<open>Set\<close> writes no
  file, registers the raw payload as the value of the entry and leaves the counter at 0.
\<close>

theorem Set_stores_raw_payload_counterexample:
  "fst (Set demo_env fresh_engine ''k'' ''payload'' 5) = None \<and>
   cache_Get (snd (Set demo_env fresh_engine ''k'' ''payload'' 5)) ''k''
     = Some \<lparr>Key = ''k'', Value = ''payload'', ttl = 5, expiresAt = 1005\<rparr> \<and>
   files (snd (Set demo_env fresh_engine ''k'' ''payload'' 5)) = [] \<and>
   actualSize (snd (Set demo_env fresh_engine ''k'' ''payload'' 5)) = 0"
  by code_simp

text \<open>
  Claim C9, amended: a simple-key write \<open>set(k, v, ttl)\<close> returns no error and registers
  the raw payload \<open>v\<close>, with the ttl, in the index under \<open>k\<close>. No codec is applied and
  no file is written: every file present afterwards was present before with the same
  content. With no capacity bound the files are unchanged and the insertion
  notification adds to the counter the size of the file that \<open>v\<close> names, if \<open>v\<close> names
  one and \<open>k\<close> does not contain the reserved prefix, and nothing otherwise.
\<close>

theorem Set_registers_raw_payload:
  "fst (Set E s k val duration) = None \<and>
   find (\<lambda>i. Key i = k) (cache (snd (Set E s k val duration)))
     = Some \<lparr>Key = k, Value = val, ttl = duration, expiresAt = clock s + duration\<rparr> \<and>
   (\<forall>p b. map_of (files (snd (Set E s k val duration))) p = Some b
             \<longrightarrow> map_of (files s) p = Some b) \<and>
   (size_capacity s = 0 \<longrightarrow>
      files (snd (Set E s k val duration)) = files s \<and>
      actualSize (snd (Set E s k val duration)) =
        actualSize s + (if strings_Contains k (MappingKeyPrefix E) then 0
                        else case map_of (files s) val of None \<Rightarrow> 0 | Some b \<Rightarrow> int (length b)))"
proof -
  have "size_capacity s = 0 \<Longrightarrow> files (cache_Set E s k val duration) = files s"
    by (simp add: cache_Set_def Let_def OnInsertion_fields split: option.splits)
  moreover have "size_capacity s = 0 \<Longrightarrow> actualSize (cache_Set E s k val duration) =
        actualSize s + (if strings_Contains k (MappingKeyPrefix E) then 0
                        else case map_of (files s) val of None \<Rightarrow> 0 | Some b \<Rightarrow> int (length b))"
    by (simp add: cache_Set_def Let_def OnInsertion_actualSize split: option.splits)
  ultimately show ?thesis
    using cache_Set_files [of E s k val duration]
    by (simp add: Set_def cache_Set_find)
qed

theorem Set_registers_raw_payload_witness:
  "fst (Set demo_env one_blob ''k'' ''payload'' 5) = None \<and>
   find (\<lambda>i. Key i = ''k'') (cache (snd (Set demo_env one_blob ''k'' ''payload'' 5)))
     = Some \<lparr>Key = ''k'', Value = ''payload'', ttl = 5, expiresAt = clock one_blob + 5\<rparr> \<and>
   map_of (files (snd (Set demo_env one_blob ''k'' ''payload'' 5))) ''d/k1'' = Some ''LZ4x'' \<and>
   map_of (files one_blob) ''d/k1'' = Some ''LZ4x'' \<and>
   size_capacity one_blob = 0 \<and>
   files (snd (Set demo_env one_blob ''k'' ''payload'' 5)) = files one_blob \<and>
   actualSize (snd (Set demo_env one_blob ''k'' ''payload'' 5)) = actualSize one_blob"
proof -
  note T = Set_registers_raw_payload [of demo_env one_blob "''k''" "''payload''" 5]
  have cap: "size_capacity one_blob = 0"
    by (simp add: one_blob_def)
  have blob: "map_of (files (snd (Set demo_env one_blob ''k'' ''payload'' 5))) ''d/k1''
                = Some ''LZ4x''"
    by code_simp
  have zero: "(if strings_Contains ''k'' (MappingKeyPrefix demo_env) then 0
               else case map_of (files one_blob) ''payload'' of
                      None \<Rightarrow> 0 | Some b \<Rightarrow> int (length b)) = 0"
    by code_simp
  from T have t1: "fst (Set demo_env one_blob ''k'' ''payload'' 5) = None"
    by (rule conjunct1)
  from T have t2: "find (\<lambda>i. Key i = ''k'') (cache (snd (Set demo_env one_blob ''k'' ''payload'' 5)))
     = Some \<lparr>Key = ''k'', Value = ''payload'', ttl = 5, expiresAt = clock one_blob + 5\<rparr>"
    by (rule conjunct2 [THEN conjunct1])
  from T have t3: "\<forall>p b. map_of (files (snd (Set demo_env one_blob ''k'' ''payload'' 5))) p = Some b
             \<longrightarrow> map_of (files one_blob) p = Some b"
    by (rule conjunct2 [THEN conjunct2, THEN conjunct1])
  from t3 blob have t3': "map_of (files one_blob) ''d/k1'' = Some ''LZ4x''"
    by blast
  from T have t4: "size_capacity one_blob = 0 \<longrightarrow>
      files (snd (Set demo_env one_blob ''k'' ''payload'' 5)) = files one_blob \<and>
      actualSize (snd (Set demo_env one_blob ''k'' ''payload'' 5)) =
        actualSize one_blob + (if strings_Contains ''k'' (MappingKeyPrefix demo_env) then 0
               else case map_of (files one_blob) ''payload'' of
                      None \<Rightarrow> 0 | Some b \<Rightarrow> int (length b))"
    by (rule conjunct2 [THEN conjunct2, THEN conjunct2])
  from t4 cap zero have t4': "files (snd (Set demo_env one_blob ''k'' ''payload'' 5)) = files one_blob \<and>
      actualSize (snd (Set demo_env one_blob ''k'' ''payload'' 5)) = actualSize one_blob"
    by (simp only: simp_thms add_0_right)
  from t1 t2 blob t3' cap t4' show ?thesis
    by (intro conjI) (erule conjunct1 conjunct2 | assumption)+
qed

section \<open>The hooks on entries without a file and on mapping records\<close>

lemma fold_cache_evict_absent:
  "(\<And>i. i \<in> set xs \<Longrightarrow> map_of (files s) (Value i) = None) \<Longrightarrow>
     actualSize (fold (cache_evict E r) xs s) = actualSize s \<and>
     files (fold (cache_evict E r) xs s) = files s"
proof (induction xs arbitrary: s)
  case Nil
  then show ?case by simp
next
  case (Cons x xs)
  have x: "map_of (files s) (Value x) = None"
    using Cons.prems by simp
  note e = cache_evict_absent [OF x, of E r]
  have "actualSize (fold (cache_evict E r) xs (cache_evict E r x s)) = actualSize (cache_evict E r x s) \<and>
        files (fold (cache_evict E r) xs (cache_evict E r x s)) = files (cache_evict E r x s)"
    using Cons.prems e by (intro Cons.IH) simp
  with e show ?case by simp
qed

text \<open>The sweep of expired entries, when none of them has a file.\<close>

lemma expiry_without_files_is_inert:
  assumes "\<And>i. i \<in> set (cache s) \<Longrightarrow> isExpired (clock s) i \<Longrightarrow> map_of (files s) (Value i) = None"
  shows "actualSize (cache_DeleteExpired E s) = actualSize s \<and>
         files (cache_DeleteExpired E s) = files s"
  unfolding cache_DeleteExpired_def
  by (rule fold_cache_evict_absent) (simp add: assms)

text \<open>The eviction at capacity inside a set, when the oldest entry has no file.\<close>

lemma capacity_eviction_without_file_is_inert:
  assumes "find (\<lambda>i. Key i = k) (cache s) = None"
    and "size_capacity s \<noteq> 0" and "size_capacity s \<le> length (cache s)"
    and "rev (cache s) = oldest # others"
    and "map_of (files s) (Value oldest) = None"
  shows "cache_Set E s k v d =
           OnInsertion E \<lparr>Key = k, Value = v, ttl = d, expiresAt = clock s + d\<rparr>
             ((cache_evict E EvictionReasonCapacityReached oldest s)
                \<lparr>cache := \<lparr>Key = k, Value = v, ttl = d, expiresAt = clock s + d\<rparr>
                            # filter (\<lambda>i. Key i \<noteq> Key oldest) (cache s)\<rparr>)"
    and "files (cache_Set E s k v d) = files s"
    and "actualSize (cache_Set E s k v d) =
           actualSize s + (if strings_Contains k (MappingKeyPrefix E) then 0
                           else case map_of (files s) v of
                                  None \<Rightarrow> 0 | Some b \<Rightarrow> int (length b))"
proof -
  note e = cache_evict_absent [OF assms(5), of E EvictionReasonCapacityReached]
  show eq: "cache_Set E s k v d =
           OnInsertion E \<lparr>Key = k, Value = v, ttl = d, expiresAt = clock s + d\<rparr>
             ((cache_evict E EvictionReasonCapacityReached oldest s)
                \<lparr>cache := \<lparr>Key = k, Value = v, ttl = d, expiresAt = clock s + d\<rparr>
                            # filter (\<lambda>i. Key i \<noteq> Key oldest) (cache s)\<rparr>)"
    using assms(1-4) by (simp add: cache_Set_def Let_def cache_evict_fields)
  show "files (cache_Set E s k v d) = files s"
    using e by (simp add: eq OnInsertion_fields)
  show "actualSize (cache_Set E s k v d) =
           actualSize s + (if strings_Contains k (MappingKeyPrefix E) then 0
                           else case map_of (files s) v of
                                  None \<Rightarrow> 0 | Some b \<Rightarrow> int (length b))"
    using e by (simp add: eq OnInsertion_actualSize)
qed

lemma raw_entry_reached:
  "snd (Set demo_env one_blob ''k'' ''payload'' 5) =
     one_blob_and_raw\<lparr>logger := logger one_blob @ [Errorf ''cannot get file size'' ''k'']\<rparr>"
  by code_simp

text \<open>
  Claim C10: for every index entry whose stored value does not name an existing file,
  in particular every entry created by the plain \<open>Set\<close>, whose value is the raw payload,
  any removal of the entry, by delete, expiry or capacity eviction, leaves \<open>actualSize\<close>
  unchanged and deletes no file, because the eviction handler returns when \<open>os.Stat\<close>
  fails.

  As stated the claim fails for the entries of the plain \<open>Set\<close>: the payload may name an
  existing file. The entry made by setting the payload \<open>f\<close>, the name of a file of 20
  bytes, raises the counter to 20; deleting it brings the counter to 0 and removes the
  file.
\<close>

theorem plain_Set_entry_with_file_is_not_inert:
  "map_of (files engine_with_file) ''f'' = Some ''0123456789abcdefghij'' \<and>
   cache_Get (snd (Set demo_env engine_with_file ''k'' ''f'' 5)) ''k''
     = Some \<lparr>Key = ''k'', Value = ''f'', ttl = 5, expiresAt = 1005\<rparr> \<and>
   actualSize (snd (Set demo_env engine_with_file ''k'' ''f'' 5)) = 20 \<and>
   files (snd (Set demo_env engine_with_file ''k'' ''f'' 5)) = [(''f'', ''0123456789abcdefghij'')] \<and>
   actualSize (Delete demo_env (snd (Set demo_env engine_with_file ''k'' ''f'' 5)) ''k'') = 0 \<and>
   files (Delete demo_env (snd (Set demo_env engine_with_file ''k'' ''f'' 5)) ''k'') = []"
  by code_simp

text \<open>
  Claim C10, amended: for every index entry whose stored value does not name an
  existing file, among them the entries of the plain \<open>Set\<close> whose payload names no
  existing file, any removal of the entry leaves \<open>actualSize\<close> unchanged and deletes no
  file, because the eviction handler returns when \<open>os.Stat\<close> fails.

  Every removal runs the eviction hook through \<open>cache_evict\<close>, which the theorem covers
  for every reason; its last part is the plain \<open>Set\<close> of such a payload followed by the
  delete of the entry.
\<close>

theorem eviction_without_file_is_inert:
  assumes "map_of (files s) (Value item) = None"
  shows "actualSize (OnEviction E reason item s) = actualSize s \<and>
         files (OnEviction E reason item s) = files s \<and>
         actualSize (cache_evict E reason item s) = actualSize s \<and>
         files (cache_evict E reason item s) = files s \<and>
         (find (\<lambda>i. Key i = k) (cache s) = Some item \<longrightarrow>
            actualSize (Delete E s k) = actualSize s \<and> files (Delete E s k) = files s) \<and>
         actualSize (Delete E (snd (Set E s k' (Value item) d)) k')
           = actualSize (snd (Set E s k' (Value item) d)) \<and>
         files (Delete E (snd (Set E s k' (Value item) d)) k')
           = files (snd (Set E s k' (Value item) d))"
proof -
  define s1 where "s1 = cache_Set E s k' (Value item) d"
  define it where "it = \<lparr>Key = k', Value = Value item, ttl = d, expiresAt = clock s + d\<rparr>"
  have f: "find (\<lambda>i. Key i = k') (cache s1) = Some it"
    by (simp add: s1_def it_def cache_Set_find)
  have "map_of (files s1) (Value it) = None"
    using assms by (simp add: s1_def it_def cache_Set_files_absent)
  from cache_evict_absent [OF this, of E EvictionReasonDeleted] f
  have "actualSize (Delete E s1 k') = actualSize s1 \<and> files (Delete E s1 k') = files s1"
    by (simp add: Delete_def cache_Delete_def)
  with OnEviction_absent [OF assms, of E reason] cache_evict_absent [OF assms, of E]
  show ?thesis
    by (simp add: Delete_def cache_Delete_def Set_def s1_def)
qed

theorem eviction_without_file_is_inert_witness:
  "map_of (files one_blob_and_raw) (Value raw_entry) = None \<and>
   find (\<lambda>i. Key i = ''k'') (cache one_blob_and_raw) = Some raw_entry \<and>
   actualSize (OnEviction demo_env EvictionReasonExpired raw_entry one_blob_and_raw) = 4 \<and>
   files (OnEviction demo_env EvictionReasonExpired raw_entry one_blob_and_raw)
     = [(''d/k1'', ''LZ4x'')] \<and>
   actualSize (cache_evict demo_env EvictionReasonExpired raw_entry one_blob_and_raw) = 4 \<and>
   files (cache_evict demo_env EvictionReasonExpired raw_entry one_blob_and_raw)
     = [(''d/k1'', ''LZ4x'')] \<and>
   actualSize (Delete demo_env one_blob_and_raw ''k'') = 4 \<and>
   files (Delete demo_env one_blob_and_raw ''k'') = [(''d/k1'', ''LZ4x'')] \<and>
   actualSize (snd (Set demo_env one_blob_and_raw ''k2'' ''payload'' 5)) = 4 \<and>
   actualSize (Delete demo_env (snd (Set demo_env one_blob_and_raw ''k2'' ''payload'' 5)) ''k2'') = 4 \<and>
   files (Delete demo_env (snd (Set demo_env one_blob_and_raw ''k2'' ''payload'' 5)) ''k2'')
     = [(''d/k1'', ''LZ4x'')]"
proof -
  have a: "map_of (files one_blob_and_raw) (Value raw_entry) = None"
    by code_simp
  have f: "find (\<lambda>i. Key i = ''k'') (cache one_blob_and_raw) = Some raw_entry"
    by code_simp
  have v: "actualSize one_blob_and_raw = 4" "files one_blob_and_raw = [(''d/k1'', ''LZ4x'')]"
    by (simp_all add: one_blob_and_raw_def one_blob_def)
  have p: "Value raw_entry = ''payload''"
    by (simp add: raw_entry_def)
  have s: "actualSize (snd (Set demo_env one_blob_and_raw ''k2'' ''payload'' 5)) = 4"
    "files (snd (Set demo_env one_blob_and_raw ''k2'' ''payload'' 5)) = [(''d/k1'', ''LZ4x'')]"
    by code_simp+
  note T = eviction_without_file_is_inert
             [OF a, of demo_env EvictionReasonExpired "''k''" "''k2''" 5, unfolded p]
  from T a f v s show ?thesis
    by simp
qed

text \<open>The insertion hook tests the key of the entry, and is inert on mapping records.\<close>

lemma OnInsertion_mapping_inert:
  "strings_Contains (Key item) (MappingKeyPrefix E) \<Longrightarrow> OnInsertion E item s = s"
  by (simp add: OnInsertion_def)

text \<open>
  Claim C7: both hooks treat mapping records, identified by the reserved prefix in the
  key of the entry, as inert: neither changes the byte counter and the eviction hook
  deletes no file.

  The eviction hook does not: it looks for the prefix in the value of the entry, where
  the insertion hook looks in the key. An entry with the key \<open>IDX_m\<close> whose value is
  the path of the stored blob \<open>d/k1\<close> is ignored at insertion (the counter stays at 4);
  at its removal the counter drops to 0 and the blob is deleted.
\<close>

theorem eviction_hook_tests_value_not_key:
  "strings_Contains ''IDX_m'' (MappingKeyPrefix demo_env) \<and>
   actualSize one_blob = 4 \<and>
   files one_blob = [(''d/k1'', ''LZ4x'')] \<and>
   actualSize (OnInsertion demo_env \<lparr>Key = ''IDX_m'', Value = ''d/k1'', ttl = 5, expiresAt = 1005\<rparr>
                 one_blob) = 4 \<and>
   actualSize (OnEviction demo_env EvictionReasonDeleted
                 \<lparr>Key = ''IDX_m'', Value = ''d/k1'', ttl = 5, expiresAt = 1005\<rparr> one_blob) = 0 \<and>
   files (OnEviction demo_env EvictionReasonDeleted
            \<lparr>Key = ''IDX_m'', Value = ''d/k1'', ttl = 5, expiresAt = 1005\<rparr> one_blob) = [] \<and>
   actualSize (snd (Set demo_env one_blob ''IDX_m'' ''d/k1'' 5)) = 4 \<and>
   actualSize (Delete demo_env (snd (Set demo_env one_blob ''IDX_m'' ''d/k1'' 5)) ''IDX_m'') = 0 \<and>
   files (Delete demo_env (snd (Set demo_env one_blob ''IDX_m'' ''d/k1'' 5)) ''IDX_m'') = []"
  by code_simp

section \<open>The multi-level write\<close>

text \<open>
  Claim C4: a write with a configured compression method that is not one of the
  supported ones (none, lz4, zstd) fails at the encode step, and an error is returned,
  rather than the plaintext being stored.

  As stated the claim fails: with the method \<open>gzip\<close> the write returns no error and the
  file holds the plaintext.
\<close>

theorem unknown_method_stores_plaintext:
  "compression gzip_engine = ''gzip'' \<and>
   map_option fst (SetMultiLevel demo_env gzip_engine ''b'' ''k1'' ''secret'' [] ''e'' 5 ''r'')
     = Some None \<and>
   map_option (\<lambda>r. files (snd r))
       (SetMultiLevel demo_env gzip_engine ''b'' ''k1'' ''secret'' [] ''e'' 5 ''r'')
     = Some [(''d/k1'', ''secret'')]"
  by code_simp

text \<open>The encode step with a method that is not supported: a warning, and the payload as it is.\<close>

lemma unknown_method_is_not_an_error:
  assumes "compression s \<noteq> ''zstd''" and "compression s \<noteq> ''lz4''" and "compression s \<noteq> ''''"
  shows "compress E s variedKey val =
           (Inr val, s\<lparr>logger := logger s @
              [Warnf ''unknown compression method, stored uncompressed'' (compression s)]\<rparr>)"
  using assms by (simp add: compress_def)

text \<open>
  Claim C4, amended: for a configured method other than \<open>zstd\<close>, \<open>lz4\<close> and the empty
  string, the encode step does not fail: it logs a warning and hands on the payload
  unchanged. When the reclaimer returns and the file can be written, the bytes written
  are the plaintext, the call returns, and the only error it can return is the one of
  the merge; with no capacity bound the file holds the plaintext when the call returns.
\<close>

theorem unknown_method_stores_plaintext_file:
  assumes m: "compression s \<noteq> ''zstd''" "compression s \<noteq> ''lz4''" "compression s \<noteq> ''''"
    and rec: "recoverEnoughSpaceIfNeeded E (int (length val))
                (s\<lparr>logger := logger s @
                   [Warnf ''unknown compression method, stored uncompressed'' (compression s)]\<rparr>)
              = Some s1"
    and fp: "fp = filepath_Join_PathEscape E (path s1) variedKey"
    and w: "\<not> WriteFile_fails E fp"
    and s3: "s3 = cache_Set E (s1\<lparr>files := AList.update fp val (files s1)\<rparr>) variedKey fp duration"
    and old: "old = (case cache_Get s3 (MappingKeyPrefix E @ baseKey) of
                       None \<Rightarrow> [] | Some item \<Rightarrow> Value item)"
  shows "\<exists>r s'. SetMultiLevel E s baseKey variedKey val variedHeaders etag duration realKey
                   = Some (r, s') \<and>
                (r, s') = updateMapping E s3 (clock s) baseKey variedKey variedHeaders etag
                            duration realKey \<and>
                r = (case MappingUpdater E variedKey old (clock s) (clock s + duration)
                            (clock s + (duration + stale s)) variedHeaders etag realKey of
                       Inl e \<Rightarrow> Some e | Inr merged \<Rightarrow> None) \<and>
                (size_capacity s = 0 \<longrightarrow> map_of (files s') fp = Some val)"
proof -
  note c = unknown_method_is_not_an_error [OF m, of E variedKey val]
  have wr: "os_WriteFile E s1 fp val = Some (s1\<lparr>files := AList.update fp val (files s1)\<rparr>)"
    using w by (simp add: os_WriteFile_def)
  note a = SetMultiLevel_after_write [OF c rec fp wr s3]
  note b = SetMultiLevel_after_write_fields [OF c rec wr s3]
  obtain r s' where um:
    "updateMapping E s3 (clock s) baseKey variedKey variedHeaders etag duration realKey = (r, s')"
    by (cases "updateMapping E s3 (clock s) baseKey variedKey variedHeaders etag duration realKey")
  have r: "r = (case MappingUpdater E variedKey old (clock s) (clock s + duration)
                            (clock s + (duration + stale s)) variedHeaders etag realKey of
                       Inl e \<Rightarrow> Some e | Inr merged \<Rightarrow> None)"
    using um old a(3)
    by (auto simp add: updateMapping_def Let_def negativeNow_value split: option.splits sum.splits)
  have f: "map_of (files s') fp = Some val" if cap: "size_capacity s = 0"
  proof -
    have "files s' = files s3"
      using updateMapping_unbounded(1) [OF um] cap b(1) by simp
    also have "\<dots> = AList.update fp val (files s1)"
      using cap recover_returns [OF rec] by (simp add: s3 cache_Set_unbounded)
    finally show ?thesis by (simp add: update_conv')
  qed
  have "SetMultiLevel E s baseKey variedKey val variedHeaders etag duration realKey = Some (r, s') \<and>
        (r, s') = updateMapping E s3 (clock s) baseKey variedKey variedHeaders etag duration realKey \<and>
        r = (case MappingUpdater E variedKey old (clock s) (clock s + duration)
                            (clock s + (duration + stale s)) variedHeaders etag realKey of
                       Inl e \<Rightarrow> Some e | Inr merged \<Rightarrow> None) \<and>
        (size_capacity s = 0 \<longrightarrow> map_of (files s') fp = Some val)"
    using a(1) um r f by simp
  then show ?thesis
    by (intro exI [of _ r] exI [of _ s'])
qed

theorem unknown_method_stores_plaintext_file_witness:
  "compression gzip_engine \<noteq> ''zstd'' \<and> compression gzip_engine \<noteq> ''lz4'' \<and>
   compression gzip_engine \<noteq> '''' \<and>
   \<not> WriteFile_fails demo_env ''d/k1'' \<and>
   size_capacity gzip_engine = 0 \<and>
   (\<exists>s'. SetMultiLevel demo_env gzip_engine ''b'' ''k1'' ''secret'' [] ''e'' 5 ''r''
            = Some (None, s') \<and>
         map_of (files s') ''d/k1'' = Some ''secret'')"
proof -
  have m: "compression gzip_engine \<noteq> ''zstd''" "compression gzip_engine \<noteq> ''lz4''"
    "compression gzip_engine \<noteq> ''''"
    by (simp_all add: gzip_engine_def)
  have rec: "recoverEnoughSpaceIfNeeded demo_env (int (length ''secret''))
               (gzip_engine\<lparr>logger := logger gzip_engine @
                  [Warnf ''unknown compression method, stored uncompressed''
                     (compression gzip_engine)]\<rparr>)
             = Some (gzip_engine\<lparr>logger := logger gzip_engine @
                  [Warnf ''unknown compression method, stored uncompressed''
                     (compression gzip_engine)]\<rparr>)"
    by (rule recover_fits) (simp add: gzip_engine_def fresh_engine_def)
  have fp: "''d/k1'' = filepath_Join_PathEscape demo_env
              (path (gzip_engine\<lparr>logger := logger gzip_engine @
                  [Warnf ''unknown compression method, stored uncompressed''
                     (compression gzip_engine)]\<rparr>)) ''k1''"
    by (simp add: gzip_engine_def fresh_engine_def demo_env_def)
  have w: "\<not> WriteFile_fails demo_env ''d/k1''"
    by (simp add: demo_env_def)
  have cap: "size_capacity gzip_engine = 0"
    by (simp add: gzip_engine_def fresh_engine_def)
  note T = unknown_method_stores_plaintext_file
         [OF m rec fp w refl refl, of "''b''" "[]" "''e''" 5 "''r''"]
  from T obtain r s' where
    a: "SetMultiLevel demo_env gzip_engine ''b'' ''k1'' ''secret'' [] ''e'' 5 ''r'' = Some (r, s')"
    and b: "r = (case MappingUpdater demo_env ''k1''
                  (case cache_Get
                     (cache_Set demo_env
                        (gzip_engine\<lparr>logger := logger gzip_engine @
                           [Warnf ''unknown compression method, stored uncompressed''
                              (compression gzip_engine)]\<rparr>
                         \<lparr>files := AList.update ''d/k1'' ''secret''
                            (files (gzip_engine\<lparr>logger := logger gzip_engine @
                           [Warnf ''unknown compression method, stored uncompressed''
                              (compression gzip_engine)]\<rparr>))\<rparr>) ''k1'' ''d/k1'' 5)
                     (MappingKeyPrefix demo_env @ ''b'') of
                     None \<Rightarrow> [] | Some item \<Rightarrow> Value item)
                  (clock gzip_engine) (clock gzip_engine + 5)
                  (clock gzip_engine + (5 + stale gzip_engine)) [] ''e'' ''r'' of
                Inl e \<Rightarrow> Some e | Inr merged \<Rightarrow> None)"
    and c: "size_capacity gzip_engine = 0 \<longrightarrow> map_of (files s') ''d/k1'' = Some ''secret''"
    by (elim exE conjE) (rule that, assumption+)
  have b': "r = None"
    unfolding b by (simp add: demo_env_def)
  from c cap have c': "map_of (files s') ''d/k1'' = Some ''secret''"
    by (rule mp)
  from a [unfolded b'] c' have
    "SetMultiLevel demo_env gzip_engine ''b'' ''k1'' ''secret'' [] ''e'' 5 ''r'' = Some (None, s') \<and>
     map_of (files s') ''d/k1'' = Some ''secret''"
    by (rule conjI)
  then have
    "\<exists>s'. SetMultiLevel demo_env gzip_engine ''b'' ''k1'' ''secret'' [] ''e'' 5 ''r''
            = Some (None, s') \<and>
         map_of (files s') ''d/k1'' = Some ''secret''"
    by (rule exI [of _ s'])
  with m w cap show ?thesis by blast
qed




text \<open>
  Claim C6: when writing the blob file fails, the error is logged, the call returns
  success, and it stops before any index registration or mapping update, so that no
  entry is made for a variant that is not on disk.

  The state returned is the one the reclaimer left, with one more log entry: the
  index, the files and the counter are untouched.
\<close>

theorem failed_write_returns_nil:
  assumes c: "compress E s variedKey val = (Inr compressed, s0)"
    and rec: "recoverEnoughSpaceIfNeeded E (int (length compressed)) s0 = Some s1"
    and w: "WriteFile_fails E (filepath_Join_PathEscape E (path s1) variedKey)"
  shows "SetMultiLevel E s baseKey variedKey val variedHeaders etag duration realKey
           = Some (None, s1\<lparr>logger := logger s1 @ [Errorf ''cannot write file'' variedKey]\<rparr>)"
  using c rec w by (simp add: SetMultiLevel_def os_WriteFile_def)

theorem failed_write_returns_nil_witness:
  "compress readonly_env one_blob ''k2'' ''y'' = (Inr ''LZ4y'', one_blob) \<and>
   recoverEnoughSpaceIfNeeded readonly_env (int (length ''LZ4y'')) one_blob = Some one_blob \<and>
   WriteFile_fails readonly_env (filepath_Join_PathEscape readonly_env (path one_blob) ''k2'') \<and>
   SetMultiLevel readonly_env one_blob ''b'' ''k2'' ''y'' [] ''e'' 5 ''r''
     = Some (None, one_blob\<lparr>logger := logger one_blob @ [Errorf ''cannot write file'' ''k2'']\<rparr>)"
proof -
  have c: "compress readonly_env one_blob ''k2'' ''y'' = (Inr ''LZ4y'', one_blob)"
    by code_simp
  have rec: "recoverEnoughSpaceIfNeeded readonly_env (int (length ''LZ4y'')) one_blob
               = Some one_blob"
    by (rule recover_fits) (simp add: one_blob_def)
  have w: "WriteFile_fails readonly_env
             (filepath_Join_PathEscape readonly_env (path one_blob) ''k2'')"
    by (simp add: readonly_env_def)
  from failed_write_returns_nil [OF c rec w] c rec w show ?thesis
    by simp
qed

text \<open>
  Claim C8: every call of \<open>SetMultiLevel\<close> that reaches the mapping update writes the
  merged record under the mapping key with a ttl that is already expired, that is
  \<open>\<le> 0\<close>, whatever the time of the call.

  The ttl is minus twice the nanosecond offset of the clock, taken as seconds:
  parsing it never fails, and it is 0 when the offset is 0.
\<close>

theorem mapping_record_ttl_not_positive:
  assumes c: "compress E s variedKey val = (Inr compressed, s0)"
    and rec: "recoverEnoughSpaceIfNeeded E (int (length compressed)) s0 = Some s1"
    and fp: "fp = filepath_Join_PathEscape E (path s1) variedKey"
    and w: "os_WriteFile E s1 fp compressed = Some s2"
    and s3: "s3 = cache_Set E s2 variedKey fp duration"
    and old: "old = (case cache_Get s3 (MappingKeyPrefix E @ baseKey) of
                       None \<Rightarrow> [] | Some item \<Rightarrow> Value item)"
    and m: "MappingUpdater E variedKey old (clock s) (clock s + duration)
              (clock s + (duration + stale s)) variedHeaders etag realKey = Inr merged"
  shows "\<exists>s' item. SetMultiLevel E s baseKey variedKey val variedHeaders etag duration realKey
                 = Some (None, s') \<and>
              find (\<lambda>i. Key i = MappingKeyPrefix E @ baseKey) (cache s') = Some item \<and>
              Value item = merged \<and>
              negativeNow (clock s) = Inr (ttl item) \<and>
              ttl item = - (clock s mod 1000000000 * 2 * 1000000000) \<and>
              ttl item \<le> 0 \<and>
              isExpired (clock s') item"
proof -
  note a = SetMultiLevel_after_write [OF c rec fp w s3]
  define t where "t = - (clock s mod 1000000000 * 2 * 1000000000)"
  have t: "t \<le> 0" by (simp add: t_def)
  define s4 where "s4 = (case cache_Get s3 (MappingKeyPrefix E @ baseKey) of
      None \<Rightarrow> s3\<lparr>logger := logger s3 @ [Warnf ''mapping key not found'' (MappingKeyPrefix E @ baseKey)]\<rparr>
    | Some item \<Rightarrow> s3)"
  define s5 where "s5 = s4\<lparr>logger := logger s4 @ [Debugf ''store the new mapping'' variedKey]\<rparr>"
  have k5: "clock s5 = clock s"
    by (simp add: s5_def s4_def a(2) split: option.splits)
  have um: "updateMapping E s3 (clock s) baseKey variedKey variedHeaders etag duration realKey
          = (None, cache_Set E s5 (MappingKeyPrefix E @ baseKey) merged t)"
    using m old a(2,3)
    by (auto simp add: updateMapping_def Let_def negativeNow_value s5_def s4_def t_def
        split: option.splits)
  define s' where "s' = cache_Set E s5 (MappingKeyPrefix E @ baseKey) merged t"
  define item where "item = \<lparr>Key = MappingKeyPrefix E @ baseKey, Value = merged, ttl = t,
                              expiresAt = clock s + t\<rparr>"
  have f: "find (\<lambda>i. Key i = MappingKeyPrefix E @ baseKey) (cache s') = Some item"
    by (simp add: s'_def item_def cache_Set_find k5)
  have k': "clock s' = clock s"
    by (simp add: s'_def cache_Set_fields k5)
  have "SetMultiLevel E s baseKey variedKey val variedHeaders etag duration realKey
          = Some (None, s')"
    using a(1) um by (simp add: s'_def)
  moreover have "Value item = merged" "ttl item = t" by (simp_all add: item_def)
  moreover have "negativeNow (clock s) = Inr t" by (simp add: negativeNow_value t_def)
  moreover have "isExpired (clock s') item"
    using t by (simp add: isExpired_def item_def k')
  ultimately have res:
    "SetMultiLevel E s baseKey variedKey val variedHeaders etag duration realKey
       = Some (None, s') \<and>
     find (\<lambda>i. Key i = MappingKeyPrefix E @ baseKey) (cache s') = Some item \<and>
     Value item = merged \<and>
     negativeNow (clock s) = Inr (ttl item) \<and>
     ttl item = - (clock s mod 1000000000 * 2 * 1000000000) \<and>
     ttl item \<le> 0 \<and>
     isExpired (clock s') item"
    using f t by (simp add: t_def)
  show ?thesis
    by (rule exI [of _ s'], rule exI [of _ item]) (rule res)
qed

theorem mapping_record_ttl_not_positive_witness:
  "compress demo_env fresh_engine ''k1'' ''x'' = (Inr ''LZ4x'', fresh_engine) \<and>
   recoverEnoughSpaceIfNeeded demo_env (int (length ''LZ4x'')) fresh_engine = Some fresh_engine \<and>
   os_WriteFile demo_env fresh_engine ''d/k1'' ''LZ4x''
     = Some (fresh_engine\<lparr>files := [(''d/k1'', ''LZ4x'')]\<rparr>) \<and>
   MappingUpdater demo_env ''k1'' [] 1000 1005 1005 [] ''e'' ''r'' = Inr ''k1;'' \<and>
   (\<exists>s' item. SetMultiLevel demo_env fresh_engine ''b'' ''k1'' ''x'' [] ''e'' 5 ''r''
                  = Some (None, s') \<and>
               find (\<lambda>i. Key i = ''IDX_b'') (cache s') = Some item \<and>
               Value item = ''k1;'' \<and> ttl item = - 2000000000000 \<and> ttl item \<le> 0 \<and>
               isExpired (clock s') item)"
proof -
  have c: "compress demo_env fresh_engine ''k1'' ''x'' = (Inr ''LZ4x'', fresh_engine)"
    by code_simp
  have rec: "recoverEnoughSpaceIfNeeded demo_env (int (length ''LZ4x'')) fresh_engine
               = Some fresh_engine"
    by (rule recover_fits) (simp add: fresh_engine_def)
  have fp: "''d/k1'' = filepath_Join_PathEscape demo_env (path fresh_engine) ''k1''"
    by code_simp
  have w: "os_WriteFile demo_env fresh_engine ''d/k1'' ''LZ4x''
             = Some (fresh_engine\<lparr>files := [(''d/k1'', ''LZ4x'')]\<rparr>)"
    by code_simp
  have m: "MappingUpdater demo_env ''k1''
             (case cache_Get (cache_Set demo_env (fresh_engine\<lparr>files := [(''d/k1'', ''LZ4x'')]\<rparr>)
                                ''k1'' ''d/k1'' 5) (MappingKeyPrefix demo_env @ ''b'') of
                None \<Rightarrow> [] | Some item \<Rightarrow> Value item)
             (clock fresh_engine) (clock fresh_engine + 5)
             (clock fresh_engine + (5 + stale fresh_engine)) [] ''e'' ''r''
           = Inr ''k1;''"
    by code_simp
  have m0: "MappingUpdater demo_env ''k1'' [] 1000 1005 1005 [] ''e'' ''r'' = Inr ''k1;''"
    by (simp add: demo_env_def)
  have p: "MappingKeyPrefix demo_env @ ''b'' = ''IDX_b''"
    by (simp add: demo_env_def)
  have t: "- (clock fresh_engine mod 1000000000 * 2 * 1000000000) = - 2000000000000"
    by (simp add: fresh_engine_def)
  from mapping_record_ttl_not_positive [OF c rec fp w refl refl m]
  obtain s' item where
    "SetMultiLevel demo_env fresh_engine ''b'' ''k1'' ''x'' [] ''e'' 5 ''r'' = Some (None, s')"
    "find (\<lambda>i. Key i = MappingKeyPrefix demo_env @ ''b'') (cache s') = Some item"
    "Value item = ''k1;''"
    "ttl item = - (clock fresh_engine mod 1000000000 * 2 * 1000000000)"
    "ttl item \<le> 0" "isExpired (clock s') item"
    by blast
  with c rec w m0 show ?thesis
    unfolding p t by blast
qed

end
